theory Spec2Isabelle
  imports Main
begin

section \<open>Strings and the Python primitives used by the chunker\<close>

text \<open>
  A Python \<open>str\<close> is a sequence of Unicode code points, and \<open>len\<close>, slicing and \<open>rfind\<close>
  all count code points. A text is therefore a list of code points, each a natural number.
\<close>

type_synonym pystr = "nat list"

definition cps :: "string \<Rightarrow> pystr" where
  "cps s = map of_char s"

text \<open>
  \<open>str.strip()\<close> removes the characters for which \<open>str.isspace\<close> holds from both ends:
  tab to carriage return, the four separators U+001C to U+001F, space, NEL, the
  no-break space and the Unicode space separators.
\<close>

definition is_space :: "nat \<Rightarrow> bool" where
  "is_space c \<longleftrightarrow>
     (9 \<le> c \<and> c \<le> 13) \<or> (28 \<le> c \<and> c \<le> 32) \<or> c = 133 \<or> c = 160 \<or> c = 5760 \<or>
     (8192 \<le> c \<and> c \<le> 8202) \<or> c = 8232 \<or> c = 8233 \<or> c = 8239 \<or> c = 8287 \<or> c = 12288"

definition strip :: "pystr \<Rightarrow> pystr" where
  "strip s = rev (dropWhile is_space (rev (dropWhile is_space s)))"

text \<open>
  \<open>xs[i:j]\<close>: a negative bound counts from the end, every bound is clipped to the
  sequence, and an empty range is the empty sequence.
\<close>

definition py_slice :: "'a list \<Rightarrow> int \<Rightarrow> int \<Rightarrow> 'a list" where
  "py_slice xs i j =
     (let n = int (length xs);
          lo = (if i < 0 then max (i + n) 0 else min i n);
          hi = (if j < 0 then max (j + n) 0 else min j n)
      in take (nat (hi - lo)) (drop (nat lo) xs))"

text \<open>
  \<open>s.rfind(sep)\<close>: the highest position at which \<open>sep\<close> occurs in \<open>s\<close>, and \<open>-1\<close>
  when it does not occur.
\<close>

fun rfind :: "'a list \<Rightarrow> 'a list \<Rightarrow> int" where
  "rfind [] sep = (if sep = [] then 0 else - 1)"
| "rfind (x # xs) sep =
     (let r = rfind xs sep
      in if 0 \<le> r then r + 1
         else if take (length sep) (x # xs) = sep then 0 else - 1)"

section \<open>The chunker: \<open>chunk_text\<close>\<close>

text \<open>The separators in the order the source tries them: \<open>'. '\<close>, \<open>'.\n'\<close>, \<open>'! '\<close>, \<open>'? '\<close>, \<open>'\n\n'\<close>.\<close>

definition separators :: "pystr list" where
  "separators = [[46, 32], [46, 10], [33, 32], [63, 32], [10, 10]]"

text \<open>
  The \<open>for sep in ...\<close> loop of the source: the first separator whose last occurrence in
  the window lies beyond \<open>chunk_size // 2\<close> moves \<open>end\<close> just behind that occurrence and
  leaves the loop; with no such separator \<open>end\<close> stays as it is.
\<close>

fun find_break :: "pystr \<Rightarrow> int \<Rightarrow> int \<Rightarrow> int \<Rightarrow> pystr list \<Rightarrow> int" where
  "find_break text start end chunk_size [] = end"
| "find_break text start end chunk_size (sep # seps) =
     (let last_sep = rfind (py_slice text start end) sep
      in if last_sep > chunk_size div 2 then start + last_sep + int (length sep)
         else find_break text start end chunk_size seps)"

text \<open>The value of \<open>end\<close> when the chunk of one iteration is cut.\<close>

definition window_end :: "pystr \<Rightarrow> int \<Rightarrow> int \<Rightarrow> int" where
  "window_end text chunk_size start =
     (let end = start + chunk_size
      in if end < int (length text) then find_break text start end chunk_size separators
         else end)"

text \<open>
  The \<open>while start < len(text)\<close> loop. Nothing in the source bounds the number of
  iterations, so the loop is a partial function: \<open>None\<close> is a run that never returns.
\<close>

partial_function (option) chunk_loop ::
  "pystr \<Rightarrow> int \<Rightarrow> int \<Rightarrow> int \<Rightarrow> pystr list \<Rightarrow> pystr list option" where
  "chunk_loop text chunk_size overlap start chunks =
     (if start < int (length text) then
        let end = window_end text chunk_size start;
            chunk = strip (py_slice text start end)
        in chunk_loop text chunk_size overlap (end - overlap)
             (if chunk \<noteq> [] then chunks @ [chunk] else chunks)
      else Some chunks)"

definition chunk_text :: "pystr \<Rightarrow> int \<Rightarrow> int \<Rightarrow> pystr list option" where
  "chunk_text text chunk_size overlap =
     (if text = [] \<or> int (length text) \<le> chunk_size
      then Some (if text \<noteq> [] then [text] else [])
      else chunk_loop text chunk_size overlap 0 [])"

declare chunk_loop.simps [code]

section \<open>Documents, the embedding model and the vector index\<close>

record document =
  doc_id :: pystr
  filename :: pystr
  doc_type :: pystr
  doc_text :: pystr

datatype error = ProviderFailure | SearchFailure | IndexError | ValueError

text \<open>
  The sentence-transformers model and the FAISS index are libraries outside the
  repository, so they are parameters of the model: \<open>encode\<close> is \<open>model.encode\<close> followed by
  the cast to \<open>float32\<close> (\<open>None\<close> when the call raises), \<open>normalize_L2\<close> is what
  \<open>faiss.normalize_L2\<close> does to one row, and \<open>index_search ix qs k\<close> is
  \<open>index.search\<close> on an index holding the rows \<open>ix\<close>, for the batch of queries \<open>qs\<close>:
  one row of \<open>(score, position)\<close> pairs for each query, a missing hit having position
  \<open>-1\<close> (\<open>None\<close> when the call raises). Vectors \<open>'v\<close> and scores \<open>'s\<close> stay abstract.
\<close>

record ('v, 's) backend =
  encode :: "pystr list \<Rightarrow> 'v list option"
  normalize_L2 :: "'v \<Rightarrow> 'v"
  index_search :: "'v list \<Rightarrow> 'v list \<Rightarrow> int \<Rightarrow> ('s \<times> int) list list option"

definition create_embeddings :: "('v, 's) backend \<Rightarrow> pystr list \<Rightarrow> error + 'v list" where
  "create_embeddings backend texts =
     (case encode backend texts of None \<Rightarrow> Inl ProviderFailure | Some embeddings \<Rightarrow> Inr embeddings)"

text \<open>An \<open>IndexFlatIP\<close> is the sequence of the rows added to it, in the order of insertion.\<close>

definition build_index :: "('v, 's) backend \<Rightarrow> 'v list \<Rightarrow> 'v list" where
  "build_index backend embeddings = map (normalize_L2 backend) embeddings"

text \<open>
  A result is the dictionary built by \<open>retrieve\<close>, with the keys \<open>text\<close> and \<open>score\<close>;
  \<open>query\<close> adds the key \<open>source\<close> to it.
\<close>

record 's result =
  res_text :: pystr
  res_score :: 's
  res_source :: "pystr option"

text \<open>The loop over \<open>zip(scores[0], indices[0])\<close>; \<open>chunks[idx]\<close> raises beyond the list.\<close>

fun collect_hits :: "pystr list \<Rightarrow> ('s \<times> int) list \<Rightarrow> error + 's result list" where
  "collect_hits chunks [] = Inr []"
| "collect_hits chunks ((score, idx) # hits) =
     (if 0 \<le> idx then
        if idx < int (length chunks) then
          (case collect_hits chunks hits of
             Inl e \<Rightarrow> Inl e
           | Inr results \<Rightarrow>
               Inr (\<lparr>res_text = chunks ! nat idx, res_score = score, res_source = None\<rparr> # results))
        else Inl IndexError
      else collect_hits chunks hits)"

definition retrieve ::
  "('v, 's) backend \<Rightarrow> pystr \<Rightarrow> 'v list \<Rightarrow> pystr list \<Rightarrow> int \<Rightarrow> error + 's result list" where
  "retrieve backend query ix chunks top_k =
     (case create_embeddings backend [query] of
        Inl e \<Rightarrow> Inl e
      | Inr query_embedding \<Rightarrow>
          (case index_search backend ix (map (normalize_L2 backend) query_embedding)
                  (min top_k (int (length chunks))) of
             None \<Rightarrow> Inl SearchFailure
           | Some [] \<Rightarrow> Inl IndexError
           | Some (row # rows) \<Rightarrow> collect_hits chunks row))"

text \<open>
  The loop of \<open>_rebuild_index\<close> over \<open>enumerate(self.documents)\<close>, with the two lists it
  extends; \<open>chunk_text\<close> is called with its default sizes, 500 and 50.
\<close>

fun collect_chunks ::
  "document list \<Rightarrow> nat \<Rightarrow> pystr list \<Rightarrow> nat list \<Rightarrow> (pystr list \<times> nat list) option" where
  "collect_chunks [] i chunks sources = Some (chunks, sources)"
| "collect_chunks (doc # docs) i chunks sources =
     (case chunk_text (doc_text doc) 500 50 of
        None \<Rightarrow> None
      | Some doc_chunks \<Rightarrow>
          collect_chunks docs (Suc i) (chunks @ doc_chunks)
            (sources @ replicate (length doc_chunks) i))"

section \<open>The pipeline: \<open>RAGPipeline\<close>\<close>

record 'v rag_pipeline =
  documents :: "document list"
  chunks :: "pystr list"
  chunk_sources :: "nat list"
  index :: "'v list option"

text \<open>\<open>__init__\<close>.\<close>

definition new_pipeline :: "'v rag_pipeline" where
  "new_pipeline = \<lparr>documents = [], chunks = [], chunk_sources = [], index = None\<rparr>"

text \<open>
  An operation returns its outcome together with the pipeline it leaves behind, which is
  the pipeline as mutated up to the \<open>raise\<close> when the outcome is an error. \<open>None\<close> is an
  operation that never returns.
\<close>

definition rebuild_index ::
  "('v, 's) backend \<Rightarrow> 'v rag_pipeline \<Rightarrow> ((error + unit) \<times> 'v rag_pipeline) option" where
  "rebuild_index backend s =
     (case collect_chunks (documents s) 0 [] [] of
        None \<Rightarrow> None
      | Some (new_chunks, new_sources) \<Rightarrow>
          (let s1 = s\<lparr>chunks := new_chunks, chunk_sources := new_sources\<rparr>
           in if new_chunks \<noteq> [] then
                (case create_embeddings backend new_chunks of
                   Inl e \<Rightarrow> Some (Inl e, s1)
                 | Inr embeddings \<Rightarrow>
                     Some (Inr (), s1\<lparr>index := Some (build_index backend embeddings)\<rparr>))
              else Some (Inr (), s1\<lparr>index := None\<rparr>)))"

definition add_document ::
  "('v, 's) backend \<Rightarrow> 'v rag_pipeline \<Rightarrow> pystr \<Rightarrow> pystr \<Rightarrow> pystr \<Rightarrow> pystr \<Rightarrow>
     ((error + unit) \<times> 'v rag_pipeline) option" where
  "add_document backend s did fname ftype txt =
     rebuild_index backend
       (s\<lparr>documents := documents s @
            [\<lparr>doc_id = did, filename = fname, doc_type = ftype, doc_text = txt\<rparr>]\<rparr>)"

definition remove_document ::
  "('v, 's) backend \<Rightarrow> 'v rag_pipeline \<Rightarrow> pystr \<Rightarrow>
     ((error + bool) \<times> 'v rag_pipeline) option" where
  "remove_document backend s did =
     (let initial_count = length (documents s);
          s1 = s\<lparr>documents := filter (\<lambda>d. doc_id d \<noteq> did) (documents s)\<rparr>
      in if length (documents s1) < initial_count then
           (case rebuild_index backend s1 of
              None \<Rightarrow> None
            | Some (Inl e, s2) \<Rightarrow> Some (Inl e, s2)
            | Some (Inr u, s2) \<Rightarrow> Some (Inr True, s2))
         else Some (Inr False, s1))"

text \<open>\<open>list.index\<close>: the first position holding a value equal to \<open>x\<close>.\<close>

fun index_of :: "'a list \<Rightarrow> 'a \<Rightarrow> nat option" where
  "index_of [] x = None"
| "index_of (y # ys) x = (if y = x then Some 0 else map_option Suc (index_of ys x))"

text \<open>The loop of \<open>query\<close> that adds the source of every result.\<close>

fun add_sources :: "'v rag_pipeline \<Rightarrow> 's result list \<Rightarrow> error + 's result list" where
  "add_sources s [] = Inr []"
| "add_sources s (r # results) =
     (case index_of (chunks s) (res_text r) of
        None \<Rightarrow> Inl ValueError
      | Some chunk_idx \<Rightarrow>
          if chunk_idx < length (chunk_sources s) then
            (let doc_idx = chunk_sources s ! chunk_idx
             in if doc_idx < length (documents s) then
                  (case add_sources s results of
                     Inl e \<Rightarrow> Inl e
                   | Inr results' \<Rightarrow>
                       Inr (r\<lparr>res_source := Some (filename (documents s ! doc_idx))\<rparr> # results'))
                else Inl IndexError)
          else Inl IndexError)"

definition query ::
  "('v, 's) backend \<Rightarrow> 'v rag_pipeline \<Rightarrow> pystr \<Rightarrow> int \<Rightarrow>
     (error + 's result list) \<times> 'v rag_pipeline" where
  "query backend s question top_k =
     (case index s of
        None \<Rightarrow> (Inr [], s)
      | Some ix \<Rightarrow>
          if chunks s = [] then (Inr [], s)
          else (case retrieve backend question ix (chunks s) top_k of
                  Inl e \<Rightarrow> (Inl e, s)
                | Inr results \<Rightarrow> (add_sources s results, s)))"

definition get_documents :: "'v rag_pipeline \<Rightarrow> (pystr \<times> pystr \<times> pystr) list \<times> 'v rag_pipeline" where
  "get_documents s = (map (\<lambda>d. (doc_id d, filename d, doc_type d)) (documents s), s)"

section \<open>Properties stated about the model\<close>

subsection \<open>Where a chunk is cut\<close>

text \<open>\<open>sep\<close> occurs in \<open>w\<close> at position \<open>p\<close>.\<close>

definition occurs_at :: "'a list \<Rightarrow> 'a list \<Rightarrow> nat \<Rightarrow> bool" where
  "occurs_at w sep p \<longleftrightarrow> take (length sep) (drop p w) = sep"

text \<open>The positions of \<open>w\<close> at which \<open>sep\<close> occurs, in increasing order.\<close>

definition occurrences :: "'a list \<Rightarrow> 'a list \<Rightarrow> nat list" where
  "occurrences w sep = filter (occurs_at w sep) [0..<length w]"

text \<open>
  The cut as the specification words it: among the occurrences of all boundary markers
  at a position of the window beyond \<open>chunk_size / 2\<close>, the chunk ends behind the last
  one; with no such occurrence it is cut at the raw window size.
\<close>

definition spec_window_end :: "pystr \<Rightarrow> int \<Rightarrow> int \<Rightarrow> int" where
  "spec_window_end text chunk_size start =
     (let w = py_slice text start (start + chunk_size);
          hits = filter (\<lambda>p. chunk_size div 2 < int p \<and> list_ex (\<lambda>sep. occurs_at w sep p) separators)
                   [0..<length w]
      in if hits = [] then start + chunk_size else start + int (last hits) + 2)"

text \<open>
  The cut by priority: the first marker, in the order of \<open>separators\<close>, that occurs at a
  position of the window beyond \<open>chunk_size div 2\<close> decides, and the chunk ends behind
  the last occurrence of that marker; with no such marker it is cut at the raw window
  size.
\<close>

definition priority_window_end :: "pystr \<Rightarrow> int \<Rightarrow> int \<Rightarrow> int" where
  "priority_window_end text chunk_size start =
     (let w = py_slice text start (start + chunk_size)
      in case find (\<lambda>sep. list_ex (\<lambda>p. chunk_size div 2 < int p) (occurrences w sep)) separators of
           None \<Rightarrow> start + chunk_size
         | Some sep \<Rightarrow> start + int (last (occurrences w sep)) + int (length sep))"

subsection \<open>The contracts of the libraries\<close>

text \<open>The embedding model returns one vector for each text it is given.\<close>

definition provider_contract :: "('v, 's) backend \<Rightarrow> bool" where
  "provider_contract backend \<longleftrightarrow>
     (\<forall>texts embeddings. encode backend texts = Some embeddings \<longrightarrow>
        length embeddings = length texts)"

text \<open>
  A search for \<open>k\<close> neighbours, \<open>0 < k\<close>, in an index of at least \<open>k\<close> rows returns, for
  every query, \<open>k\<close> hits at positions of the index.
\<close>

definition search_contract :: "('v, 's) backend \<Rightarrow> bool" where
  "search_contract backend \<longleftrightarrow>
     (\<forall>ix qs k. 0 < k \<and> k \<le> int (length ix) \<longrightarrow>
        (\<exists>rows. index_search backend ix qs k = Some rows \<and> length rows = length qs \<and>
           (\<forall>row\<in>set rows. length row = nat k \<and>
              (\<forall>hit\<in>set row. 0 \<le> snd hit \<and> snd hit < int (length ix)))))"

subsection \<open>The invariants of the pipeline\<close>

text \<open>The chunks of every document, document by document.\<close>

definition per_document_chunks :: "document list \<Rightarrow> pystr list list option" where
  "per_document_chunks docs = those (map (\<lambda>d. chunk_text (doc_text d) 500 50) docs)"

text \<open>
  Invariant 1: the index is absent exactly when there are no chunks, and an index holds
  one row for each chunk.
\<close>

definition index_aligned :: "'v rag_pipeline \<Rightarrow> bool" where
  "index_aligned s \<longleftrightarrow>
     (case index s of None \<Rightarrow> chunks s = []
      | Some ix \<Rightarrow> chunks s \<noteq> [] \<and> length ix = length (chunks s))"

text \<open>Invariant 2: every chunk has an owner, and the owner is a document of the pipeline.\<close>

definition owners_present :: "'v rag_pipeline \<Rightarrow> bool" where
  "owners_present s \<longleftrightarrow>
     length (chunk_sources s) = length (chunks s) \<and>
     list_all (\<lambda>doc_idx. doc_idx < length (documents s)) (chunk_sources s)"

text \<open>
  Invariant 3: the chunks are the chunks of the first document, then those of the
  second, and so on, and each chunk is owned by the document it was cut from.
\<close>

definition chunks_in_document_order :: "'v rag_pipeline \<Rightarrow> bool" where
  "chunks_in_document_order s \<longleftrightarrow>
     (case per_document_chunks (documents s) of
        None \<Rightarrow> False
      | Some css \<Rightarrow>
          chunks s = concat css \<and>
          chunk_sources s = concat (map (\<lambda>(i, cs). replicate (length cs) i) (enumerate 0 css)))"

definition corpus_inv :: "'v rag_pipeline \<Rightarrow> bool" where
  "corpus_inv s \<longleftrightarrow> index_aligned s \<and> owners_present s \<and> chunks_in_document_order s"

subsection \<open>Concrete backends and documents\<close>

text \<open>
  A backend of one-dimensional vectors: a text is embedded as its length, and a search
  for \<open>k\<close> neighbours returns the first \<open>k\<close> positions of the index, each with the
  product of the two vectors as its score.
\<close>

definition demo_backend :: "(nat, nat) backend" where
  "demo_backend =
     \<lparr>encode = (\<lambda>texts. Some (map length texts)),
      normalize_L2 = (\<lambda>v. v),
      index_search = (\<lambda>ix qs k.
        if 0 < k then
          Some (map (\<lambda>q. map (\<lambda>i. if i < length ix then (ix ! i * q, int i) else (0, - 1))
                            [0..<nat k]) qs)
        else None)\<rparr>"

text \<open>A backend whose embedding model raises on every call.\<close>

definition failing_backend :: "(nat, nat) backend" where
  "failing_backend = demo_backend\<lparr>encode := (\<lambda>texts. None)\<rparr>"

definition doc_a :: document where
  "doc_a = \<lparr>doc_id = cps ''a'', filename = cps ''a.txt'', doc_type = cps ''txt'',
            doc_text = cps ''hello''\<rparr>"

definition doc_b :: document where
  "doc_b = \<lparr>doc_id = cps ''b'', filename = cps ''b.txt'', doc_type = cps ''txt'',
            doc_text = cps ''hello''\<rparr>"

text \<open>The pipeline after \<open>doc_a\<close> and \<open>doc_b\<close> were added to a new one with \<open>demo_backend\<close>.\<close>

definition two_documents :: "nat rag_pipeline" where
  "two_documents =
     \<lparr>documents = [doc_a, doc_b], chunks = [cps ''hello'', cps ''hello''],
      chunk_sources = [0, 1], index = Some [5, 5]\<rparr>"

definition doc_c :: document where
  "doc_c = \<lparr>doc_id = cps ''c'', filename = cps ''c.txt'', doc_type = cps ''txt'',
            doc_text = cps ''bye''\<rparr>"

text \<open>
  The pipeline left by adding \<open>doc_a\<close> to a new pipeline when the embedding call raises:
  one chunk and no index.
\<close>

definition failed_add :: "nat rag_pipeline" where
  "failed_add =
     \<lparr>documents = [doc_a], chunks = [cps ''hello''], chunk_sources = [0], index = None\<rparr>"

text \<open>
  The pipeline left by adding \<open>doc_c\<close> to \<open>two_documents\<close> when the embedding call
  raises: three chunks, and the index of the two chunks from before.
\<close>

definition stale_index :: "nat rag_pipeline" where
  "stale_index =
     \<lparr>documents = [doc_a, doc_b, doc_c],
      chunks = [cps ''hello'', cps ''hello'', cps ''bye''],
      chunk_sources = [0, 1, 2], index = Some [5, 5]\<rparr>"

section \<open>Termination of the chunker\<close>

lemma find_break_cases:
  "find_break text start e cs seps = e \<or>
   (\<exists>sep\<in>set seps. \<exists>p. cs div 2 < p \<and>
      find_break text start e cs seps = start + p + int (length sep))"
  by (induction seps) (auto simp: Let_def)

text \<open>
  A window ends at the raw size, or behind a separator of two characters that starts
  beyond the middle.
\<close>

lemma window_end_lower:
  "window_end text cs start = start + cs \<or> start + cs div 2 + 3 \<le> window_end text cs start"
proof (cases "start + cs < int (length text)")
  case True
  from find_break_cases [of "text" start "start + cs" cs separators]
  show ?thesis using True
    by (auto simp: window_end_def Let_def separators_def)
next
  case False
  then show ?thesis by (simp add: window_end_def)
qed

lemma window_end_advances:
  assumes "ov < cs" "ov \<le> cs div 2 + 2"
  shows "start < window_end text cs start - ov"
  using window_end_lower [of "text" cs start] assms by auto

lemma chunk_loop_terminates:
  assumes "ov < cs" "ov \<le> cs div 2 + 2"
  shows "\<exists>r. chunk_loop text cs ov start acc = Some r"
proof (induction "nat (int (length text) - start)" arbitrary: start acc rule: less_induct)
  case less
  show ?case
  proof (cases "start < int (length text)")
    case False
    then show ?thesis by (subst chunk_loop.simps) simp
  next
    case True
    let ?e = "window_end text cs start"
    have adv: "start < ?e - ov" using assms by (rule window_end_advances)
    with True have "nat (int (length text) - (?e - ov)) < nat (int (length text) - start)"
      by linarith
    from less [OF this] obtain r where
      "chunk_loop text cs ov (?e - ov)
         (if strip (py_slice text start ?e) \<noteq> [] then acc @ [strip (py_slice text start ?e)]
          else acc) = Some r"
      by blast
    then show ?thesis using True
      by (subst chunk_loop.simps) (simp add: Let_def)
  qed
qed

text \<open>With the default sizes, the ones \<open>_rebuild_index\<close> uses, the chunker always returns.\<close>

lemma chunk_text_default_total: "\<exists>r. chunk_text text 500 50 = Some r"
  using chunk_loop_terminates [of 50 500] by (simp add: chunk_text_def)

text \<open>A loop whose next \<open>start\<close> is the present one never returns.\<close>

lemma chunk_loop_stuck:
  assumes "start < int (length t)" and "window_end t cs start - ov = start"
  shows "chunk_loop t cs ov start acc = None"
proof (cases "chunk_loop t cs ov start acc")
  case None
  then show ?thesis .
next
  case (Some y)
  have "\<not> (t = t \<and> cs = cs \<and> ov = ov \<and> start = start)"
  proof (rule chunk_loop.raw_induct
      [where P = "\<lambda>t' cs' ov' start' acc' y'.
                    \<not> (t' = t \<and> cs' = cs \<and> ov' = ov \<and> start' = start)",
        OF _ Some])
    fix f t' cs' ov' start' acc' y'
    assume IH: "\<And>t' cs' ov' start' acc' y'. f t' cs' ov' start' acc' = Some y' \<Longrightarrow>
                  \<not> (t' = t \<and> cs' = cs \<and> ov' = ov \<and> start' = start)"
      and step: "(if start' < int (length t') then
                    let end = window_end t' cs' start'; chunk = strip (py_slice t' start' end)
                    in f t' cs' ov' (end - ov') (if chunk \<noteq> [] then acc' @ [chunk] else acc')
                  else Some acc') = Some y'"
    show "\<not> (t' = t \<and> cs' = cs \<and> ov' = ov \<and> start' = start)"
    proof
      assume a: "t' = t \<and> cs' = cs \<and> ov' = ov \<and> start' = start"
      with step assms obtain acc'' where "f t cs ov start acc'' = Some y'"
        by (auto simp: Let_def split: if_splits)
      from IH [OF this] show False by simp
    qed
  qed
  then show ?thesis by simp
qed

text \<open>
  Claim C3, as amended. \<open>chunk_text\<close> checks neither \<open>chunk_size\<close> nor \<open>overlap\<close> and has
  no error result. It returns for every text when \<open>overlap < chunk_size\<close> and
  \<open>overlap \<le> chunk_size div 2 + 2\<close>, and then every iteration of the scan moves \<open>start\<close>
  strictly forward. The second bound is needed because a chunk cut at a separator can be
  as short as \<open>chunk_size div 2 + 3\<close> characters.
\<close>

theorem chunk_text_terminates:
  "overlap < chunk_size \<Longrightarrow> overlap \<le> chunk_size div 2 + 2 \<Longrightarrow>
     (\<exists>r. chunk_text text chunk_size overlap = Some r) \<and>
     start < window_end text chunk_size start - overlap"
  using chunk_loop_terminates [of overlap chunk_size "text" 0 "[]"]
    window_end_advances [of overlap chunk_size start "text"]
  by (simp add: chunk_text_def)

theorem chunk_text_terminates_witness:
  "(3::int) < 15 \<and> (3::int) \<le> 15 div 2 + 2 \<and>
   (\<exists>r. chunk_text (cps ''The sky is blue. Water is wet.'') 15 3 = Some r) \<and>
   0 < window_end (cps ''The sky is blue. Water is wet.'') 15 0 - 3"
  using chunk_text_terminates [of 3 15 "cps ''The sky is blue. Water is wet.''" 0]
  by simp

text \<open>
  Claim C3 as stated fails: with \<open>overlap = chunk_size\<close> the call does not fail fast, it
  never returns; and \<open>overlap < chunk_size\<close> alone does not make the scan advance, since a
  chunk cut at a separator can be no longer than the overlap.
\<close>

theorem chunk_text_unguarded_counterexample:
  "chunk_text (replicate 12 97) 5 5 = None \<and>
   chunk_text (cps ''aaaaaa. bbbbbbbbb'') 10 8 = None"
proof -
  have "window_end (replicate 12 97) 5 0 - 5 = 0" by code_simp
  then have 1: "chunk_loop (replicate 12 97) 5 5 0 [] = None"
    by (intro chunk_loop_stuck) simp_all
  have "window_end (cps ''aaaaaa. bbbbbbbbb'') 10 0 - 8 = 0" by code_simp
  then have 2: "chunk_loop (cps ''aaaaaa. bbbbbbbbb'') 10 8 0 [] = None"
    by (intro chunk_loop_stuck) (simp_all add: cps_def)
  show ?thesis using 1 2 by (simp add: chunk_text_def cps_def)
qed

section \<open>The chunks of a short text\<close>

lemma chunk_text_short:
  "text \<noteq> [] \<Longrightarrow> int (length text) \<le> cs \<Longrightarrow> chunk_text text cs ov = Some [text]"
  by (simp add: chunk_text_def)

lemma chunk_text_empty: "chunk_text [] cs ov = Some []"
  by (simp add: chunk_text_def)

text \<open>The scan keeps the chunks it has and adds no empty one.\<close>

lemma chunk_loop_nonempty_chunks:
  assumes "chunk_loop t cs ov start acc = Some r"
  shows "[] \<notin> set acc \<longrightarrow> [] \<notin> set r"
proof (rule chunk_loop.raw_induct
    [where P = "\<lambda>t cs ov start acc r. [] \<notin> set acc \<longrightarrow> [] \<notin> set r", OF _ assms])
  fix f t' cs' ov' start' acc' r'
  assume IH: "\<And>t' cs' ov' start' acc' r'. f t' cs' ov' start' acc' = Some r' \<Longrightarrow>
                [] \<notin> set acc' \<longrightarrow> [] \<notin> set r'"
    and step: "(if start' < int (length t') then
                  let end = window_end t' cs' start'; chunk = strip (py_slice t' start' end)
                  in f t' cs' ov' (end - ov') (if chunk \<noteq> [] then acc' @ [chunk] else acc')
                else Some acc') = Some r'"
  show "[] \<notin> set acc' \<longrightarrow> [] \<notin> set r'"
  proof (cases "start' < int (length t')")
    case False
    with step show ?thesis by simp
  next
    case True
    let ?c = "strip (py_slice t' start' (window_end t' cs' start'))"
    from True step have "f t' cs' ov' (window_end t' cs' start' - ov')
        (if ?c \<noteq> [] then acc' @ [?c] else acc') = Some r'"
      by (simp add: Let_def)
    from IH [OF this] show ?thesis by (auto split: if_splits)
  qed
qed

text \<open>No result of \<open>chunk_text\<close> holds an empty chunk.\<close>

lemma chunk_text_nonempty_chunks: "chunk_text text cs ov = Some r \<Longrightarrow> [] \<notin> set r"
  using chunk_loop_nonempty_chunks [of "text" cs ov 0 "[]" r]
  by (auto simp: chunk_text_def split: if_splits)

text \<open>
  Claim C4, at the inputs where the code departs from it. A text no longer than
  \<open>chunk_size\<close> is returned as it is, not trimmed: \<open>' a '\<close> gives the one chunk \<open>' a '\<close>
  where the claim has \<open>'a'\<close>, and a text of two spaces gives a chunk that is empty after
  trimming, which the scan of a longer text would have dropped.
\<close>

theorem chunk_text_short_untrimmed:
  "chunk_text (cps '' a '') 500 50 = Some [cps '' a ''] \<and>
   strip (cps '' a '') = cps ''a'' \<and>
   chunk_text (cps ''  '') 500 50 = Some [cps ''  ''] \<and>
   strip (cps ''  '') = []"
  by code_simp

section \<open>Where a chunk is cut\<close>

lemma occurs_at_Suc: "occurs_at (x # xs) sep (Suc p) = occurs_at xs sep p"
  by (simp add: occurs_at_def)

lemma occurrences_Cons:
  "occurrences (x # xs) sep =
     (if occurs_at (x # xs) sep 0 then [0] else []) @ map Suc (occurrences xs sep)"
proof -
  have "[0..<length (x # xs)] = 0 # map Suc [0..<length xs]"
    by (simp add: upt_conv_Cons map_Suc_upt del: upt_Suc)
  then show ?thesis
    by (simp add: occurrences_def filter_map o_def occurs_at_Suc)
qed

text \<open>\<open>rfind\<close> is the last position at which the separator occurs.\<close>

lemma rfind_occurrences:
  "sep \<noteq> [] \<Longrightarrow>
   rfind w sep = (if occurrences w sep = [] then - 1 else int (last (occurrences w sep)))"
proof (induction w)
  case Nil
  then show ?case by (simp add: occurrences_def)
next
  case (Cons x xs)
  then show ?case
    by (simp add: occurrences_Cons Let_def last_map occurs_at_def)
qed

lemma sorted_le_last: "sorted xs \<Longrightarrow> x \<in> set xs \<Longrightarrow> (x::nat) \<le> last xs"
  by (induction xs) auto

lemma beyond_iff:
  "list_ex (\<lambda>p. (m::int) < int p) (occurrences w sep) \<longleftrightarrow>
   occurrences w sep \<noteq> [] \<and> m < int (last (occurrences w sep))"
proof
  assume "list_ex (\<lambda>p. m < int p) (occurrences w sep)"
  then obtain p where p: "p \<in> set (occurrences w sep)" "m < int p"
    by (auto simp: list_ex_iff)
  have "sorted (occurrences w sep)"
    unfolding occurrences_def by (rule sorted_wrt_filter) simp
  from sorted_le_last [OF this p(1)] p
  show "occurrences w sep \<noteq> [] \<and> m < int (last (occurrences w sep))"
    by auto
next
  assume "occurrences w sep \<noteq> [] \<and> m < int (last (occurrences w sep))"
  then show "list_ex (\<lambda>p. m < int p) (occurrences w sep)"
    using last_in_set [of "occurrences w sep"] by (auto simp: list_ex_iff)
qed

lemma rfind_beyond:
  "sep \<noteq> [] \<Longrightarrow> 0 \<le> m \<Longrightarrow>
   m < rfind w sep \<longleftrightarrow> list_ex (\<lambda>p. m < int p) (occurrences w sep)"
  by (simp add: rfind_occurrences beyond_iff)

lemma find_break_priority:
  assumes "\<forall>sep\<in>set seps. sep \<noteq> []" "0 \<le> cs"
  shows "find_break text start e cs seps =
     (case find (\<lambda>sep. list_ex (\<lambda>p. cs div 2 < int p)
                   (occurrences (py_slice text start e) sep)) seps of
        None \<Rightarrow> e
      | Some sep \<Rightarrow>
          start + int (last (occurrences (py_slice text start e) sep)) + int (length sep))"
  using assms
proof (induction seps)
  case Nil
  then show ?case by simp
next
  case (Cons sep seps)
  then have ne: "sep \<noteq> []" and m: "0 \<le> cs div 2" by auto
  show ?case
  proof (cases "list_ex (\<lambda>p. cs div 2 < int p) (occurrences (py_slice text start e) sep)")
    case True
    with rfind_beyond [OF ne m, of "py_slice text start e"]
      beyond_iff [of "cs div 2" "py_slice text start e" sep]
    show ?thesis by (simp add: Let_def rfind_occurrences [OF ne])
  next
    case False
    with rfind_beyond [OF ne m, of "py_slice text start e"] Cons
    show ?thesis by (simp add: Let_def)
  qed
qed

text \<open>
  Claim C6, as amended. In every window that ends before the end of the text, the
  markers are tried in the order \<open>'. '\<close>, \<open>'.\n'\<close>, \<open>'! '\<close>, \<open>'? '\<close>, \<open>'\n\n'\<close>: the first
  one that occurs at a position of the window beyond \<open>chunk_size div 2\<close> decides, and the
  chunk ends behind the last occurrence of that marker, also when a marker later in the
  order occurs further right. Only when none of the five occurs beyond the middle is the
  chunk cut at the raw window size.
\<close>

theorem window_end_priority:
  "0 < chunk_size \<Longrightarrow> start + chunk_size < int (length text) \<Longrightarrow>
     window_end text chunk_size start = priority_window_end text chunk_size start"
  using find_break_priority [of separators chunk_size "text" start "start + chunk_size"]
  by (simp add: window_end_def priority_window_end_def Let_def separators_def)

theorem window_end_priority_witness:
  "(0::int) < 12 \<and> 0 + 12 < int (length (cps ''aaaaaaa. b! cccccc'')) \<and>
   window_end (cps ''aaaaaaa. b! cccccc'') 12 0 =
     priority_window_end (cps ''aaaaaaa. b! cccccc'') 12 0 \<and>
   priority_window_end (cps ''aaaaaaa. b! cccccc'') 12 0 = 9"
proof -
  have h: "0 + 12 < int (length (cps ''aaaaaaa. b! cccccc''))" by (simp add: cps_def)
  have v: "priority_window_end (cps ''aaaaaaa. b! cccccc'') 12 0 = 9" by code_simp
  from window_end_priority [of 12 0 "cps ''aaaaaaa. b! cccccc''"] h v show ?thesis by simp
qed

text \<open>
  Claim C6 as stated fails. In the window \<open>'aaaaaaa. b! '\<close> of 12 characters, \<open>'. '\<close>
  occurs at position 7 and \<open>'! '\<close> at position 10, both beyond the middle. The last
  marker is \<open>'! '\<close>, which would end the chunk at 12; the code ends it at 9, behind \<open>'. '\<close>.
\<close>

theorem window_end_last_marker_counterexample:
  "window_end (cps ''aaaaaaa. b! cccccc'') 12 0 = 9 \<and>
   spec_window_end (cps ''aaaaaaa. b! cccccc'') 12 0 = 12"
  by code_simp

section \<open>Rebuilding the chunks and the index\<close>

lemma per_document_chunks_Cons:
  "per_document_chunks (d # ds) =
     (case chunk_text (doc_text d) 500 50 of None \<Rightarrow> None
      | Some cs \<Rightarrow> map_option ((#) cs) (per_document_chunks ds))"
  by (simp add: per_document_chunks_def split: option.splits)

lemma per_document_chunks_total:
  "\<exists>css. per_document_chunks docs = Some css \<and> length css = length docs"
proof (induction docs)
  case Nil
  then show ?case by (simp add: per_document_chunks_def)
next
  case (Cons d ds)
  then obtain css where "per_document_chunks ds = Some css" "length css = length ds" by blast
  moreover obtain cs where "chunk_text (doc_text d) 500 50 = Some cs"
    using chunk_text_default_total by blast
  ultimately show ?case by (simp add: per_document_chunks_Cons)
qed

lemma collect_chunks_eq:
  "collect_chunks docs i acc srcs =
     (case per_document_chunks docs of None \<Rightarrow> None
      | Some css \<Rightarrow>
          Some (acc @ concat css,
                srcs @ concat (map (\<lambda>(j, cs). replicate (length cs) j) (enumerate i css))))"
proof (induction docs arbitrary: i acc srcs)
  case Nil
  then show ?case by (simp add: per_document_chunks_def)
next
  case (Cons d ds)
  show ?case
    by (simp add: Cons per_document_chunks_Cons split: option.splits)
qed

lemma owner_bound:
  "list_all (\<lambda>j. j < i + length css)
     (concat (map (\<lambda>(j, cs). replicate (length cs) j) (enumerate i css)))"
proof (induction css arbitrary: i)
  case Nil
  then show ?case by simp
next
  case (Cons cs css)
  from Cons [of "Suc i"] show ?case by (auto simp: list_all_iff)
qed

lemma owner_length:
  "length (concat (map (\<lambda>(j, cs). replicate (length cs) j) (enumerate i css))) =
   length (concat css)"
  by (induction css arbitrary: i) simp_all

lemma rebuild_index_cases:
  obtains css where "per_document_chunks (documents s) = Some css"
    "length css = length (documents s)"
    "concat css = [] \<Longrightarrow> rebuild_index backend s =
       Some (Inr (), s\<lparr>chunks := [], chunk_sources := concat (map (\<lambda>(j, cs). replicate (length cs) j) (enumerate 0 css)), index := None\<rparr>)"
    "concat css \<noteq> [] \<Longrightarrow> encode backend (concat css) = None \<Longrightarrow> rebuild_index backend s =
       Some (Inl ProviderFailure, s\<lparr>chunks := concat css, chunk_sources := concat (map (\<lambda>(j, cs). replicate (length cs) j) (enumerate 0 css))\<rparr>)"
    "\<And>embs. concat css \<noteq> [] \<Longrightarrow> encode backend (concat css) = Some embs \<Longrightarrow> rebuild_index backend s =
       Some (Inr (), s\<lparr>chunks := concat css, chunk_sources := concat (map (\<lambda>(j, cs). replicate (length cs) j) (enumerate 0 css)), index := Some (build_index backend embs)\<rparr>)"
proof -
  obtain css where css: "per_document_chunks (documents s) = Some css" "length css = length (documents s)"
    using per_document_chunks_total by blast
  show ?thesis
    by (rule that [OF css]) (simp_all add: rebuild_index_def collect_chunks_eq css create_embeddings_def)
qed

lemma rebuild_index_returns: "\<exists>r s'. rebuild_index backend s = Some (r, s')"
proof -
  obtain css where c: "per_document_chunks (documents s) = Some css"
    using per_document_chunks_total by blast
  show ?thesis
    by (auto simp: rebuild_index_def collect_chunks_eq c create_embeddings_def Let_def split: option.splits)
qed

lemma rebuild_index_documents:
  "rebuild_index backend s = Some (r, s') \<Longrightarrow> documents s' = documents s"
  by (auto simp: rebuild_index_def Let_def split: option.splits prod.splits if_splits sum.splits)

lemma rebuild_index_inv:
  assumes "provider_contract backend" "rebuild_index backend s = Some (Inr u, s')"
  shows "corpus_inv s'"
proof (rule rebuild_index_cases [of s backend])
  fix css
  assume css: "per_document_chunks (documents s) = Some css" "length css = length (documents s)"
  and e: "concat css = [] \<Longrightarrow> rebuild_index backend s =
       Some (Inr (), s\<lparr>chunks := [], chunk_sources := concat (map (\<lambda>(j, cs). replicate (length cs) j) (enumerate 0 css)), index := None\<rparr>)"
  and f: "concat css \<noteq> [] \<Longrightarrow> encode backend (concat css) = None \<Longrightarrow> rebuild_index backend s =
       Some (Inl ProviderFailure, s\<lparr>chunks := concat css, chunk_sources := concat (map (\<lambda>(j, cs). replicate (length cs) j) (enumerate 0 css))\<rparr>)"
  and g: "\<And>embs. concat css \<noteq> [] \<Longrightarrow> encode backend (concat css) = Some embs \<Longrightarrow> rebuild_index backend s =
       Some (Inr (), s\<lparr>chunks := concat css, chunk_sources := concat (map (\<lambda>(j, cs). replicate (length cs) j) (enumerate 0 css)), index := Some (build_index backend embs)\<rparr>)"
  let ?src = "concat (map (\<lambda>(j, cs). replicate (length cs) j) (enumerate 0 css))"
  have len: "length ?src = length (concat css)" by (rule owner_length)
  have bnd: "list_all (\<lambda>j. j < length (documents s)) ?src"
    using owner_bound [of 0 css] css(2) by simp
  show ?thesis
  proof (cases "concat css = []")
    case True
    with e assms(2) have s': "s' = s\<lparr>chunks := [], chunk_sources := ?src, index := None\<rparr>" by simp
    from len True have len0: "length ?src = 0" by simp
    have "index_aligned s'" by (simp add: s' index_aligned_def)
    moreover have "owners_present s'"
      using len0 bnd by (simp add: s' owners_present_def del: length_0_conv)
    moreover have "chunks_in_document_order s'"
      using True by (simp add: s' chunks_in_document_order_def css)
    ultimately show ?thesis by (simp add: corpus_inv_def)
  next
    case False
    show ?thesis
    proof (cases "encode backend (concat css)")
      case None
      with f False assms(2) show ?thesis by simp
    next
      case (Some embs)
      with g False assms(2) have s': "s' = s\<lparr>chunks := concat css, chunk_sources := ?src, index := Some (build_index backend embs)\<rparr>" by simp
      from assms(1) Some have "length embs = length (concat css)"
        by (simp add: provider_contract_def)
      with False len bnd show ?thesis
        by (simp add: s' corpus_inv_def index_aligned_def owners_present_def chunks_in_document_order_def css build_index_def)
    qed
  qed
qed

section \<open>The operations of the pipeline\<close>

lemma new_pipeline_inv: "corpus_inv new_pipeline"
  by (simp add: corpus_inv_def index_aligned_def owners_present_def
      chunks_in_document_order_def new_pipeline_def per_document_chunks_def)

lemma add_document_returns:
  "\<exists>r s'. add_document backend s did fname ftype body = Some (r, s')"
  unfolding add_document_def by (rule rebuild_index_returns)

lemma remove_document_returns: "\<exists>r s'. remove_document backend s did = Some (r, s')"
proof -
  obtain r s' where
    "rebuild_index backend (s\<lparr>documents := filter (\<lambda>d. doc_id d \<noteq> did) (documents s)\<rparr>) = Some (r, s')"
    using rebuild_index_returns by blast
  then show ?thesis
    by (cases r) (simp_all add: remove_document_def Let_def)
qed

lemma filter_same_length:
  "length (filter P xs) = length xs \<Longrightarrow> filter P xs = xs"
proof (induction xs)
  case Nil
  then show ?case by simp
next
  case (Cons a xs)
  have "length (filter P xs) \<le> length xs" by (rule length_filter_le)
  with Cons show ?case by (auto split: if_splits simp del: length_filter_le)
qed

lemma remove_document_Inr:
  assumes "remove_document backend s did = Some (Inr b, s')"
  shows "(b = False \<and> s' = s) \<or>
         (b = True \<and>
          rebuild_index backend (s\<lparr>documents := filter (\<lambda>d. doc_id d \<noteq> did) (documents s)\<rparr>) =
            Some (Inr (), s'))"
proof (cases "length (filter (\<lambda>d. doc_id d \<noteq> did) (documents s)) < length (documents s)")
  case True
  with assms show ?thesis
    by (auto simp: remove_document_def Let_def split: option.splits prod.splits sum.splits)
next
  case False
  then have "length (filter (\<lambda>d. doc_id d \<noteq> did) (documents s)) = length (documents s)"
    using length_filter_le [of "\<lambda>d. doc_id d \<noteq> did" "documents s"] by linarith
  then have "filter (\<lambda>d. doc_id d \<noteq> did) (documents s) = documents s"
    by (rule filter_same_length)
  with False assms show ?thesis by (simp add: remove_document_def Let_def)
qed

lemma remove_document_Inl:
  assumes "remove_document backend s did = Some (Inl e, s')"
  shows "rebuild_index backend (s\<lparr>documents := filter (\<lambda>d. doc_id d \<noteq> did) (documents s)\<rparr>) =
           Some (Inl e, s') \<and>
         length (filter (\<lambda>d. doc_id d \<noteq> did) (documents s)) < length (documents s)"
  using assms
  by (auto simp: remove_document_def Let_def split: option.splits prod.splits sum.splits if_splits)

lemma query_state: "snd (query backend s question top_k) = s"
  by (simp add: query_def split: option.splits sum.splits)

text \<open>
  Whatever its outcome, a rebuild leaves chunks and owners that are those of the
  documents: only the index can be out of step.
\<close>

lemma rebuild_index_owners:
  assumes "rebuild_index backend s = Some (r, s')"
  shows "owners_present s' \<and> chunks_in_document_order s'"
proof -
  obtain css where css: "per_document_chunks (documents s) = Some css"
    "length css = length (documents s)"
    using per_document_chunks_total by blast
  let ?src = "concat (map (\<lambda>(j, cs). replicate (length cs) j) (enumerate 0 css))"
  have len: "length ?src = length (concat css)" by (rule owner_length)
  have bnd: "list_all (\<lambda>j. j < length (documents s)) ?src"
    using owner_bound [of 0 css] css(2) by simp
  from assms have s': "documents s' = documents s \<and> chunks s' = concat css \<and>
      chunk_sources s' = ?src"
    by (auto simp: rebuild_index_def collect_chunks_eq css create_embeddings_def Let_def
        split: if_splits option.splits)
  with len bnd css(1) show ?thesis
    by (simp add: owners_present_def chunks_in_document_order_def)
qed

text \<open>
  Claim C5, as amended. The three invariants hold for a new pipeline, after every
  \<open>add_document\<close> that completes and after every \<open>remove_document\<close> that returns \<open>True\<close>,
  whatever the pipeline was before: the rebuild derives chunks, owners and index from the
  documents alone. A \<open>remove_document\<close> that returns \<open>False\<close>, a \<open>query\<close> and a
  \<open>get_documents\<close> leave the pipeline as it was, so the invariants hold after them when
  they held before. An \<open>add_document\<close> or \<open>remove_document\<close> that fails still leaves
  invariants 2 and 3 in place; invariant 1 is the one it can break. The embedding model is
  taken to return one vector for each text.
\<close>

theorem corpus_invariant:
  "provider_contract backend \<Longrightarrow>
     corpus_inv (new_pipeline :: 'v rag_pipeline) \<and>
     (add_document backend s did fname ftype body = Some (Inr u, s_add) \<longrightarrow> corpus_inv s_add) \<and>
     (remove_document backend s did = Some (Inr True, s_rem) \<longrightarrow> corpus_inv s_rem) \<and>
     (remove_document backend s did = Some (Inr False, s_same) \<longrightarrow> s_same = s) \<and>
     snd (query (backend :: ('v, 's) backend) s question top_k) = s \<and>
     snd (get_documents s) = s \<and>
     (add_document backend s did fname ftype body = Some (Inl e, s_fail) \<longrightarrow>
        owners_present s_fail \<and> chunks_in_document_order s_fail) \<and>
     (remove_document backend s did = Some (Inl e, s_fail) \<longrightarrow>
        owners_present s_fail \<and> chunks_in_document_order s_fail)"
proof -
  assume p: "provider_contract backend"
  have 1: "corpus_inv (new_pipeline :: 'v rag_pipeline)" by (rule new_pipeline_inv)
  have 2: "add_document backend s did fname ftype body = Some (Inr u, s_add) \<longrightarrow>
      corpus_inv s_add"
    unfolding add_document_def using rebuild_index_inv [OF p] by blast
  have 3: "remove_document backend s did = Some (Inr True, s_rem) \<longrightarrow> corpus_inv s_rem"
    using remove_document_Inr [of backend s did True s_rem] rebuild_index_inv [OF p] by blast
  have 4: "remove_document backend s did = Some (Inr False, s_same) \<longrightarrow> s_same = s"
    using remove_document_Inr [of backend s did False s_same] by blast
  have 5: "snd (query backend s question top_k) = s" by (rule query_state)
  have 6: "snd (get_documents s) = s" by (simp add: get_documents_def)
  have 7: "add_document backend s did fname ftype body = Some (Inl e, s_fail) \<longrightarrow>
        owners_present s_fail \<and> chunks_in_document_order s_fail"
    unfolding add_document_def using rebuild_index_owners by blast
  have 8: "remove_document backend s did = Some (Inl e, s_fail) \<longrightarrow>
        owners_present s_fail \<and> chunks_in_document_order s_fail"
    using remove_document_Inl [of backend s did e s_fail] rebuild_index_owners by blast
  from 1 2 3 4 5 6 7 8 show ?thesis by blast
qed

theorem corpus_invariant_witness:
  "provider_contract demo_backend \<and>
   corpus_inv (new_pipeline :: nat rag_pipeline) \<and>
   add_document demo_backend \<lparr>documents = [doc_a], chunks = [cps ''hello''], chunk_sources = [0], index = Some [5]\<rparr>
       (cps ''b'') (cps ''b.txt'') (cps ''txt'') (cps ''hello'') = Some (Inr (), two_documents) \<and>
   corpus_inv two_documents \<and>
   remove_document demo_backend two_documents (cps ''a'') =
     Some (Inr True, \<lparr>documents = [doc_b], chunks = [cps ''hello''], chunk_sources = [0], index = Some [5]\<rparr>) \<and>
   corpus_inv \<lparr>documents = [doc_b], chunks = [cps ''hello''], chunk_sources = [0], index = Some [5::nat]\<rparr> \<and>
   remove_document demo_backend two_documents (cps ''c'') = Some (Inr False, two_documents) \<and>
   snd (query demo_backend two_documents (cps ''hello'') 3) = two_documents \<and>
   snd (get_documents two_documents) = two_documents \<and>
   provider_contract failing_backend \<and>
   add_document failing_backend two_documents (cps ''c'') (cps ''c.txt'') (cps ''txt'')
     (cps ''bye'') = Some (Inl ProviderFailure, stale_index) \<and>
   owners_present stale_index \<and> chunks_in_document_order stale_index \<and>
   remove_document failing_backend two_documents (cps ''a'') =
     Some (Inl ProviderFailure,
       \<lparr>documents = [doc_b], chunks = [cps ''hello''], chunk_sources = [0], index = Some [5, 5]\<rparr>) \<and>
   owners_present
     \<lparr>documents = [doc_b], chunks = [cps ''hello''], chunk_sources = [0], index = Some [5, 5::nat]\<rparr>"
proof -
  have p: "provider_contract demo_backend"
    by (auto simp: provider_contract_def demo_backend_def)
  have a: "add_document demo_backend \<lparr>documents = [doc_a], chunks = [cps ''hello''], chunk_sources = [0], index = Some [5]\<rparr>
       (cps ''b'') (cps ''b.txt'') (cps ''txt'') (cps ''hello'') = Some (Inr (), two_documents)"
    by code_simp
  have r: "remove_document demo_backend two_documents (cps ''a'') =
     Some (Inr True, \<lparr>documents = [doc_b], chunks = [cps ''hello''], chunk_sources = [0], index = Some [5]\<rparr>)"
    by code_simp
  have f: "remove_document demo_backend two_documents (cps ''c'') = Some (Inr False, two_documents)"
    by code_simp
  note t = corpus_invariant [OF p, where s_add = two_documents and u = "()" and did = "cps ''b''"
        and fname = "cps ''b.txt''" and ftype = "cps ''txt''" and body = "cps ''hello''"
        and s = "\<lparr>documents = [doc_a], chunks = [cps ''hello''], chunk_sources = [0], index = Some [5]\<rparr>"]
  from t a have i: "corpus_inv two_documents" by blast
  note t' = corpus_invariant [OF p, where s = two_documents and did = "cps ''a''"
        and s_rem = "\<lparr>documents = [doc_b], chunks = [cps ''hello''], chunk_sources = [0], index = Some [5]\<rparr>"
        and question = "cps ''hello''" and top_k = 3]
  from t' r have j: "corpus_inv \<lparr>documents = [doc_b], chunks = [cps ''hello''], chunk_sources = [0], index = Some [5::nat]\<rparr>"
    and q: "snd (query demo_backend two_documents (cps ''hello'') 3) = two_documents"
    and g: "snd (get_documents two_documents) = two_documents"
    by blast+
  have p': "provider_contract failing_backend"
    by (auto simp: provider_contract_def failing_backend_def demo_backend_def)
  have a': "add_document failing_backend two_documents (cps ''c'') (cps ''c.txt'') (cps ''txt'')
     (cps ''bye'') = Some (Inl ProviderFailure, stale_index)"
    by code_simp
  have r': "remove_document failing_backend two_documents (cps ''a'') =
     Some (Inl ProviderFailure,
       \<lparr>documents = [doc_b], chunks = [cps ''hello''], chunk_sources = [0], index = Some [5, 5]\<rparr>)"
    by code_simp
  note u = corpus_invariant [OF p', where s = two_documents and did = "cps ''c''"
        and fname = "cps ''c.txt''" and ftype = "cps ''txt''" and body = "cps ''bye''"
        and e = ProviderFailure and s_fail = stale_index]
  from u a' have k: "owners_present stale_index" "chunks_in_document_order stale_index"
    by blast+
  note u' = corpus_invariant [OF p', where s = two_documents and did = "cps ''a''"
        and e = ProviderFailure
        and s_fail = "\<lparr>documents = [doc_b], chunks = [cps ''hello''], chunk_sources = [0], index = Some [5, 5]\<rparr>"]
  from u' r' have l: "owners_present
     \<lparr>documents = [doc_b], chunks = [cps ''hello''], chunk_sources = [0], index = Some [5, 5::nat]\<rparr>"
    by blast
  from t have n: "corpus_inv (new_pipeline :: nat rag_pipeline)" by blast
  from p n a i r j f q g p' a' k r' l show ?thesis by blast
qed

text \<open>
  Claim C5 as stated fails. An \<open>add_document\<close> on a new pipeline whose embedding call
  raises leaves one chunk and no index. A \<open>get_documents\<close>, a \<open>query\<close> and a
  \<open>remove_document\<close> of an unknown id then complete and leave that pipeline as it is,
  with invariant 1 violated.
\<close>

theorem corpus_invariant_counterexample:
  "add_document failing_backend new_pipeline (cps ''a'') (cps ''a.txt'') (cps ''txt'')
     (cps ''hello'') = Some (Inl ProviderFailure, failed_add) \<and>
   get_documents failed_add = ([(cps ''a'', cps ''a.txt'', cps ''txt'')], failed_add) \<and>
   query demo_backend failed_add (cps ''hello'') 3 = (Inr [], failed_add) \<and>
   remove_document demo_backend failed_add (cps ''b'') = Some (Inr False, failed_add) \<and>
   chunks failed_add = [cps ''hello''] \<and> index failed_add = None \<and>
   \<not> index_aligned failed_add \<and> \<not> corpus_inv failed_add"
  by code_simp

section \<open>A rebuild whose embedding call fails\<close>

lemma rebuild_index_Inl:
  assumes "rebuild_index backend s = Some (Inl e, s')"
  shows "e = ProviderFailure \<and> documents s' = documents s \<and> index s' = index s \<and>
         collect_chunks (documents s) 0 [] [] = Some (chunks s', chunk_sources s') \<and>
         chunks s' \<noteq> [] \<and> encode backend (chunks s') = None"
  using assms
  by (auto simp: rebuild_index_def create_embeddings_def Let_def
      split: option.splits prod.splits if_splits)

text \<open>
  Claim C2, as amended. When the embedding call of the rebuild raises, \<open>add_document\<close>
  and \<open>remove_document\<close> fail with that error, and nothing is rolled back: the
  document list is already the new one (the document appended, or the documents of that
  id removed), the chunks and their owners are already those of the new document list,
  and the index is still the one from before the call.
\<close>

theorem rebuild_failure_state:
  "(add_document backend s did fname ftype body = Some (Inl e, s_add) \<longrightarrow>
      e = ProviderFailure \<and>
      documents s_add = documents s @
        [\<lparr>doc_id = did, filename = fname, doc_type = ftype, doc_text = body\<rparr>] \<and>
      collect_chunks (documents s_add) 0 [] [] = Some (chunks s_add, chunk_sources s_add) \<and>
      chunks s_add \<noteq> [] \<and>
      index s_add = index s) \<and>
   (remove_document backend s did = Some (Inl e, s_rem) \<longrightarrow>
      e = ProviderFailure \<and>
      documents s_rem = filter (\<lambda>d. doc_id d \<noteq> did) (documents s) \<and>
      length (documents s_rem) < length (documents s) \<and>
      collect_chunks (documents s_rem) 0 [] [] = Some (chunks s_rem, chunk_sources s_rem) \<and>
      chunks s_rem \<noteq> [] \<and>
      index s_rem = index s)"
proof (rule conjI)
  show "add_document backend s did fname ftype body = Some (Inl e, s_add) \<longrightarrow>
      e = ProviderFailure \<and>
      documents s_add = documents s @
        [\<lparr>doc_id = did, filename = fname, doc_type = ftype, doc_text = body\<rparr>] \<and>
      collect_chunks (documents s_add) 0 [] [] = Some (chunks s_add, chunk_sources s_add) \<and>
      chunks s_add \<noteq> [] \<and>
      index s_add = index s"
  proof
    assume a: "add_document backend s did fname ftype body = Some (Inl e, s_add)"
    from rebuild_index_Inl [OF a [unfolded add_document_def]]
    show "e = ProviderFailure \<and>
      documents s_add = documents s @
        [\<lparr>doc_id = did, filename = fname, doc_type = ftype, doc_text = body\<rparr>] \<and>
      collect_chunks (documents s_add) 0 [] [] = Some (chunks s_add, chunk_sources s_add) \<and>
      chunks s_add \<noteq> [] \<and>
      index s_add = index s"
      by simp
  qed
next
  show "remove_document backend s did = Some (Inl e, s_rem) \<longrightarrow>
      e = ProviderFailure \<and>
      documents s_rem = filter (\<lambda>d. doc_id d \<noteq> did) (documents s) \<and>
      length (documents s_rem) < length (documents s) \<and>
      collect_chunks (documents s_rem) 0 [] [] = Some (chunks s_rem, chunk_sources s_rem) \<and>
      chunks s_rem \<noteq> [] \<and>
      index s_rem = index s"
  proof
    assume r: "remove_document backend s did = Some (Inl e, s_rem)"
    from remove_document_Inl [OF r]
    have b: "rebuild_index backend (s\<lparr>documents := filter (\<lambda>d. doc_id d \<noteq> did) (documents s)\<rparr>) =
               Some (Inl e, s_rem)"
      and l: "length (filter (\<lambda>d. doc_id d \<noteq> did) (documents s)) < length (documents s)"
      by simp_all
    from rebuild_index_Inl [OF b] l
    show "e = ProviderFailure \<and>
      documents s_rem = filter (\<lambda>d. doc_id d \<noteq> did) (documents s) \<and>
      length (documents s_rem) < length (documents s) \<and>
      collect_chunks (documents s_rem) 0 [] [] = Some (chunks s_rem, chunk_sources s_rem) \<and>
      chunks s_rem \<noteq> [] \<and>
      index s_rem = index s"
      by simp
  qed
qed

theorem rebuild_failure_state_witness:
  "add_document failing_backend two_documents (cps ''c'') (cps ''c.txt'') (cps ''txt'') (cps ''bye'') =
     Some (Inl ProviderFailure,
       \<lparr>documents = [doc_a, doc_b, \<lparr>doc_id = cps ''c'', filename = cps ''c.txt'', doc_type = cps ''txt'', doc_text = cps ''bye''\<rparr>],
        chunks = [cps ''hello'', cps ''hello'', cps ''bye''], chunk_sources = [0, 1, 2],
        index = Some [5, 5]\<rparr>) \<and>
   remove_document failing_backend two_documents (cps ''a'') =
     Some (Inl ProviderFailure,
       \<lparr>documents = [doc_b], chunks = [cps ''hello''], chunk_sources = [0], index = Some [5, 5]\<rparr>) \<and>
   index \<lparr>documents = [doc_b], chunks = [cps ''hello''], chunk_sources = [0], index = Some [5, 5::nat]\<rparr> = index two_documents"
proof -
  have a: "add_document failing_backend two_documents (cps ''c'') (cps ''c.txt'') (cps ''txt'') (cps ''bye'') =
     Some (Inl ProviderFailure,
       \<lparr>documents = [doc_a, doc_b, \<lparr>doc_id = cps ''c'', filename = cps ''c.txt'', doc_type = cps ''txt'', doc_text = cps ''bye''\<rparr>],
        chunks = [cps ''hello'', cps ''hello'', cps ''bye''], chunk_sources = [0, 1, 2],
        index = Some [5, 5]\<rparr>)"
    by code_simp
  have r: "remove_document failing_backend two_documents (cps ''a'') =
     Some (Inl ProviderFailure,
       \<lparr>documents = [doc_b], chunks = [cps ''hello''], chunk_sources = [0], index = Some [5, 5]\<rparr>)"
    by code_simp
  from rebuild_failure_state [of failing_backend two_documents "cps ''a''" _ _ _ ProviderFailure _
      "\<lparr>documents = [doc_b], chunks = [cps ''hello''], chunk_sources = [0], index = Some [5, 5]\<rparr>"] r
  have "index \<lparr>documents = [doc_b], chunks = [cps ''hello''], chunk_sources = [0], index = Some [5, 5::nat]\<rparr> = index two_documents"
    by blast
  with a r show ?thesis by blast
qed

text \<open>
  Claim C2 as stated fails: after an \<open>add_document\<close> on a new pipeline whose embedding
  call raises, the pipeline holds the document and its chunk, and no index.
\<close>

theorem rebuild_not_atomic_counterexample:
  "add_document failing_backend new_pipeline (cps ''a'') (cps ''a.txt'') (cps ''txt'') (cps ''hello'') =
     Some (Inl ProviderFailure,
       \<lparr>documents = [doc_a], chunks = [cps ''hello''], chunk_sources = [0], index = None\<rparr>) \<and>
   \<lparr>documents = [doc_a], chunks = [cps ''hello''], chunk_sources = [0], index = None\<rparr> \<noteq>
     (new_pipeline :: nat rag_pipeline)"
  by code_simp

section \<open>Adding and removing a document\<close>

text \<open>
  Claim C9. On a new pipeline, \<open>add_document\<close> returns, and \<open>remove_document\<close> with the
  same id then returns \<open>True\<close> and leaves a pipeline equal to a new one: no documents, no
  chunks, no owners, no index. This holds whether or not the embedding call of the
  \<open>add_document\<close> succeeded.
\<close>

theorem add_then_remove_restores_new:
  "\<exists>r s'. add_document backend new_pipeline did fname ftype body = Some (r, s') \<and>
          remove_document backend s' did = Some (Inr True, new_pipeline)"
proof -
  obtain r s' where a: "add_document backend new_pipeline did fname ftype body = Some (r, s')"
    using add_document_returns by blast
  then have d: "documents s' = [\<lparr>doc_id = did, filename = fname, doc_type = ftype, doc_text = body\<rparr>]"
    by (auto simp: add_document_def new_pipeline_def dest: rebuild_index_documents)
  have "remove_document backend s' did = Some (Inr True, s'\<lparr>documents := [], chunks := [], chunk_sources := [], index := None\<rparr>)"
    by (simp add: remove_document_def d rebuild_index_def Let_def)
  then have "remove_document backend s' did = Some (Inr True, new_pipeline)"
    by (simp add: new_pipeline_def)
  with a show ?thesis by blast
qed

section \<open>Queries\<close>

text \<open>
  Claim C10. \<open>query\<close> leaves the pipeline as it was: the documents, the chunks, their
  owners and the index after the call are those before it, whatever the outcome.
\<close>

theorem query_read_only:
  "documents (snd (query backend s question top_k)) = documents s \<and>
   chunks (snd (query backend s question top_k)) = chunks s \<and>
   chunk_sources (snd (query backend s question top_k)) = chunk_sources s \<and>
   index (snd (query backend s question top_k)) = index s \<and>
   snd (query backend s question top_k) = s"
  by (simp add: query_state)


text \<open>
  \<open>retrieve\<close> keeps the hits of the search in the order the search returned them, with
  the scores it returned.
\<close>

lemma collect_hits_scores:
  "collect_hits cs row = Inr rs \<Longrightarrow> map res_score rs = map fst (filter (\<lambda>hit. 0 \<le> snd hit) row)"
proof (induction row arbitrary: rs)
  case Nil
  then show ?case by simp
next
  case (Cons hit row)
  obtain score idx where h: "hit = (score, idx)" by (cases hit)
  with Cons show ?case by (auto split: if_splits sum.splits)
qed




lemma demo_search_contract: "search_contract demo_backend"
  by (auto simp: search_contract_def demo_backend_def)



text \<open>
  Claim C1, at an input where the code departs from it. Two documents, \<open>a.txt\<close> and
  \<open>b.txt\<close>, have the same text, so the chunks at positions 0 and 1 are equal. The search
  returns the hits at positions 0 and 1. \<open>query\<close> looks each hit up by its text, finds
  position 0 both times, and attaches \<open>a.txt\<close> to both results, although the chunk at
  position 1 is owned by document 1, \<open>b.txt\<close>.
\<close>

theorem query_duplicate_text_source:
  "Option.bind
     (add_document demo_backend new_pipeline (cps ''a'') (cps ''a.txt'') (cps ''txt'')
        (cps ''hello''))
     (\<lambda>(r, s). add_document demo_backend s (cps ''b'') (cps ''b.txt'') (cps ''txt'')
        (cps ''hello'')) =
     Some (Inr (), two_documents) \<and>
   index_search demo_backend [5, 5] [5] 2 = Some [[(25, 0), (25, 1)]] \<and>
   query demo_backend two_documents (cps ''hello'') 2 =
     (Inr [\<lparr>res_text = cps ''hello'', res_score = 25, res_source = Some (cps ''a.txt'')\<rparr>,
           \<lparr>res_text = cps ''hello'', res_score = 25, res_source = Some (cps ''a.txt'')\<rparr>],
      two_documents) \<and>
   chunk_sources two_documents ! 1 = 1 \<and>
   filename (documents two_documents ! 1) = cps ''b.txt''"
  by code_simp


end
